theory Spec2Isabelle
  imports Main "HOL-Library.Word"
begin

unbundle bit_operations_syntax

section \<open>C strings and \<open>std::string\<close>\<close>

text \<open>
  A \<open>const char*\<close> is modelled by the bytes found at the pointer. The text it denotes
  ends before the first NUL byte (or at the end of the list, which stands for the
  terminator). \<open>std_string\<close> is the constructor \<open>std::string(const char*)\<close>.
\<close>

definition NUL :: char where
  "NUL = CHR 0x00"

definition LF :: char where
  "LF = CHR 0x0A"

definition CR :: char where
  "CR = CHR 0x0D"

definition std_string :: "string \<Rightarrow> string" where
  "std_string p = takeWhile (\<lambda>c. c \<noteq> NUL) p"

text \<open>
  The exceptions derived from \<open>std::exception\<close> that string assembly can raise
  (\<open>std::bad_alloc\<close>, \<open>std::length_error\<close>); each carries the text its own
  \<open>what()\<close> returns.
\<close>

datatype std_exception = Std_exception (ex_what: string)

text \<open>
  The free store, as far as the program can observe it: the outcomes of the successive
  allocation requests, first request first. \<open>None\<close> is a successful allocation,
  \<open>Some ex\<close> an allocation that throws \<open>ex\<close>; requests beyond the end of the list
  succeed.
\<close>

type_synonym allocator = "std_exception option list"

fun allocate :: "allocator \<Rightarrow> std_exception option \<times> allocator" where
  "allocate [] = (None, [])"
| "allocate (r # h) = (r, h)"

fun no_fail :: "allocator \<Rightarrow> bool" where
  "no_fail [] = True"
| "no_fail (r # h) = (r = None \<and> no_fail h)"

text \<open>
  A \<open>std::string\<close> object: its characters and the capacity of its buffer. An operation
  that fits into the capacity does not allocate and cannot throw; one that does not fit
  asks the allocator for a bigger buffer and, when that throws, leaves the string as it
  was (the strong guarantee of \<open>reserve\<close>, \<open>append\<close> and \<open>push_back\<close>).
\<close>

record basic_string =
  chars :: string
  capacity :: nat

text \<open>A default-constructed string; 15 is the small-buffer capacity of the common
  implementations (no theorem below depends on the number).\<close>

definition empty_string :: basic_string where
  "empty_string = \<lparr>chars = [], capacity = 15\<rparr>"

definition c_str :: "basic_string \<Rightarrow> string" where
  "c_str s = chars s @ [NUL]"

definition empty_str :: "basic_string \<Rightarrow> bool" where
  "empty_str s = (chars s = [])"

type_synonym string_op =
  "basic_string \<Rightarrow> allocator \<Rightarrow> (std_exception + unit) \<times> basic_string \<times> allocator"

definition reserve :: "nat \<Rightarrow> string_op" where
  "reserve n s h =
     (if n \<le> capacity s then (Inr (), s, h)
      else (case allocate h of
              (Some ex, h') \<Rightarrow> (Inl ex, s, h')
            | (None, h') \<Rightarrow> (Inr (), s\<lparr>capacity := n\<rparr>, h')))"

definition append_str :: "string \<Rightarrow> string_op" where
  "append_str t s h =
     (let n = length (chars s) + length t in
      if n \<le> capacity s then (Inr (), s\<lparr>chars := chars s @ t\<rparr>, h)
      else (case allocate h of
              (Some ex, h') \<Rightarrow> (Inl ex, s, h')
            | (None, h') \<Rightarrow>
                (Inr (), \<lparr>chars = chars s @ t, capacity = max n (2 * capacity s)\<rparr>, h')))"

definition push_back :: "char \<Rightarrow> string_op" where
  "push_back c = append_str [c]"

text \<open>Statement sequencing inside the \<open>try\<close> block: a throw skips the rest.\<close>

definition seq :: "string_op \<Rightarrow> string_op \<Rightarrow> string_op" where
  "seq f g s h =
     (case f s h of
        (Inl ex, s', h') \<Rightarrow> (Inl ex, s', h')
      | (Inr u, s', h') \<Rightarrow> g s' h')"

definition skip :: string_op where
  "skip s h = (Inr (), s, h)"

section \<open>The error code type\<close>

text \<open>
  \<open>error_code_type\<close> is \<open>DWORD\<close> (unsigned) on Windows and \<open>int\<close> (signed) on Linux
  and macOS. Both are modelled as \<open>'a word\<close>, the two's complement bit pattern; the
  platform decides whether \<open>>>\<close> is the logical or the arithmetic shift.
\<close>

datatype platform = Windows | Posix

fun shift_right :: "platform \<Rightarrow> 'a::len word \<Rightarrow> nat \<Rightarrow> 'a word" where
  "shift_right Windows w n = drop_bit n w"
| "shift_right Posix w n = signed_drop_bit n w"

definition sizeof_error_code :: "'a::len word \<Rightarrow> nat" where
  "sizeof_error_code w = LENGTH('a) div 8"

section \<open>ErrorInfo and Exception\<close>

record (overloaded) 'a ErrorInfo =
  error_code :: "'a word"
  description :: string

text \<open>The private members of \<open>Exception\<close>; the trailing underscore of the source's
  names is written \<open>_m\<close>.\<close>

record (overloaded) 'a Exception =
  error_code_m :: "'a word"
  description_m :: string
  context_m :: string
  message_m :: basic_string

definition Exception_code :: "'a::len word \<Rightarrow> 'a Exception" where
  "Exception_code ec =
     \<lparr>error_code_m = ec, description_m = [], context_m = [], message_m = empty_string\<rparr>"

definition Exception_code_context :: "'a::len word \<Rightarrow> string \<Rightarrow> 'a Exception" where
  "Exception_code_context ec ctx =
     \<lparr>error_code_m = ec, description_m = [], context_m = std_string ctx,
      message_m = empty_string\<rparr>"

definition Exception_code_context_description ::
    "'a::len word \<Rightarrow> string \<Rightarrow> string \<Rightarrow> 'a Exception" where
  "Exception_code_context_description ec ctx desc =
     \<lparr>error_code_m = ec, description_m = std_string desc, context_m = std_string ctx,
      message_m = empty_string\<rparr>"

definition Exception_info :: "'a::len ErrorInfo \<Rightarrow> 'a Exception" where
  "Exception_info error_info =
     \<lparr>error_code_m = error_code error_info,
      description_m = std_string (description error_info), context_m = [],
      message_m = empty_string\<rparr>"

definition Exception_info_context :: "'a::len ErrorInfo \<Rightarrow> string \<Rightarrow> 'a Exception" where
  "Exception_info_context error_info ctx =
     \<lparr>error_code_m = error_code error_info,
      description_m = std_string (description error_info), context_m = std_string ctx,
      message_m = empty_string\<rparr>"

definition Exception_error_code :: "'a::len Exception \<Rightarrow> 'a word" where
  "Exception_error_code e = error_code_m e"

definition Exception_context :: "'a::len Exception \<Rightarrow> string" where
  "Exception_context e = context_m e"

definition Exception_description :: "'a::len Exception \<Rightarrow> string" where
  "Exception_description e = description_m e"

text \<open>
  \<open>category()\<close> is pure virtual: the dynamic class of the object decides it.
  \<open>SystemException\<close> is the class of the header (one per platform); \<open>Custom s\<close> is a
  user-defined subclass whose override returns the literal \<open>s\<close>.
\<close>

datatype exception_class = SystemException | Custom string

fun category :: "platform \<Rightarrow> exception_class \<Rightarrow> 'a::len Exception \<Rightarrow> string" where
  "category Windows SystemException e = ''WIN32''"
| "category Posix SystemException e = ''POSIX''"
| "category p (Custom s) e = s"

definition HEX_MAP :: string where
  "HEX_MAP = ''0123456789ABCDEF''"

text \<open>The loop \<open>while (error_code_size-- > 0)\<close>; the argument is the value of
  \<open>error_code_size\<close> before the test.\<close>

fun hex_loop :: "platform \<Rightarrow> 'a::len word \<Rightarrow> nat \<Rightarrow> string_op" where
  "hex_loop p ec 0 = skip"
| "hex_loop p ec (Suc error_code_size) =
     (let ch = (ucast (shift_right p ec (error_code_size * 8)) :: 8 word) in
      seq (push_back (HEX_MAP ! unat (drop_bit 4 ch)))
     (seq (push_back (HEX_MAP ! unat (ch AND 0x0F)))
          (hex_loop p ec error_code_size)))"

text \<open>The body of the \<open>try\<close> block of \<open>what()\<close>, run on \<open>message_m\<close>.\<close>

definition assemble :: "platform \<Rightarrow> exception_class \<Rightarrow> 'a::len Exception \<Rightarrow> string_op" where
  "assemble p cls e =
     seq (reserve (length (description_m e) + length (context_m e) + 100))
    (seq (append_str (std_string (category p cls e)))
    (seq (append_str ''[0x'')
    (seq (hex_loop p (error_code_m e) (sizeof_error_code (error_code_m e)))
    (seq (append_str '']'')
    (seq (if context_m e \<noteq> [] then append_str (context_m e) else skip)
         (if description_m e \<noteq> []
          then seq (append_str '' '') (append_str (description_m e))
          else skip))))))"

text \<open>
  \<open>what()\<close>: the text the caller reads through the returned pointer, the object
  afterwards (\<open>message_m\<close> is \<open>mutable\<close>) and the allocator afterwards.
\<close>

definition what ::
    "platform \<Rightarrow> exception_class \<Rightarrow> 'a::len Exception \<Rightarrow> allocator
       \<Rightarrow> string \<times> 'a Exception \<times> allocator" where
  "what p cls e h =
     (if empty_str (message_m e) then
        (case assemble p cls e (message_m e) h of
           (Inl ex, m, h') \<Rightarrow> (ex_what ex, e\<lparr>message_m := m\<rparr>, h')
         | (Inr u, m, h') \<Rightarrow> (std_string (c_str m), e\<lparr>message_m := m\<rparr>, h'))
      else (std_string (c_str (message_m e)), e, h))"

section \<open>SystemException\<close>

text \<open>
  \<open>FormatMessageA\<close> with \<open>FORMAT_MESSAGE_ALLOCATE_BUFFER\<close> is a parameter: for a code it
  gives the characters it stored in the buffer (their number is the returned
  \<open>length\<close>; none when it found no text). The buffer holds them followed by NUL.
\<close>

definition GetWin32ErrorDescription :: "('a::len word \<Rightarrow> string) \<Rightarrow> 'a word \<Rightarrow> string" where
  "GetWin32ErrorDescription FormatMessageA ec =
     (let stored = FormatMessageA ec;
          buffer = stored @ [NUL];
          len = length stored
      in if len = 0 then []
         else
           (let (buffer, len) =
                  (if len > 0 \<and> buffer ! (len - 1) = LF
                   then (buffer[len - 1 := NUL], len - 1) else (buffer, len));
                (buffer, len) =
                  (if len > 0 \<and> buffer ! (len - 1) = CR
                   then (buffer[len - 1 := NUL], len - 1) else (buffer, len))
            in std_string buffer))"

text \<open>The constructor hands \<open>GetWin32ErrorDescription(error_code).c_str()\<close> to the
  base constructor.\<close>

definition SystemException_WIN32 ::
    "('a::len word \<Rightarrow> string) \<Rightarrow> 'a word \<Rightarrow> string \<Rightarrow> 'a Exception" where
  "SystemException_WIN32 FormatMessageA ec ctx =
     Exception_code_context_description ec ctx
       (c_str \<lparr>chars = GetWin32ErrorDescription FormatMessageA ec, capacity = 15\<rparr>)"

text \<open>\<open>strerror\<close> is a parameter: the bytes at the pointer it returns.\<close>

definition SystemException_POSIX ::
    "('a::len word \<Rightarrow> string) \<Rightarrow> 'a word \<Rightarrow> string \<Rightarrow> 'a Exception" where
  "SystemException_POSIX strerror ec cnt =
     Exception_code_context_description ec cnt (strerror ec)"

section \<open>The rendering the specification describes\<close>

text \<open>
  The hexadecimal segment in the specification's words: the bytes of the value from the
  most significant to the least significant, each as two digits of
  \<open>0123456789ABCDEF\<close>, high nibble first.
\<close>

definition hex_digit :: "nat \<Rightarrow> char" where
  "hex_digit n = ''0123456789ABCDEF'' ! n"

definition hex_byte :: "nat \<Rightarrow> string" where
  "hex_byte b = [hex_digit (b div 16), hex_digit (b mod 16)]"

definition render_hex :: "nat \<Rightarrow> nat \<Rightarrow> string" where
  "render_hex sz v = concat (map (\<lambda>i. hex_byte (v div 256 ^ i mod 256)) (rev [0..<sz]))"

definition render :: "string \<Rightarrow> nat \<Rightarrow> nat \<Rightarrow> string \<Rightarrow> string \<Rightarrow> string" where
  "render cat sz v x d =
     cat @ ''[0x'' @ render_hex sz v @ '']'' @ x @ (if d = [] then [] else '' '' @ d)"

text \<open>The specification's \<open>render(category(), code, context, description)\<close> for an
  object.\<close>

definition rendering :: "platform \<Rightarrow> exception_class \<Rightarrow> 'a::len Exception \<Rightarrow> string" where
  "rendering p cls e =
     render (std_string (category p cls e)) (sizeof_error_code (error_code_m e))
       (unat (error_code_m e)) (context_m e) (description_m e)"

section \<open>The normalization the specification describes\<close>

text \<open>
  Line-ending normalization in the specification's words: strip at most one trailing
  line feed and, after that, at most one trailing carriage return.
\<close>

definition strip_trailing :: "char \<Rightarrow> string \<Rightarrow> string" where
  "strip_trailing c t = (if t \<noteq> [] \<and> last t = c then butlast t else t)"

definition normalize_description :: "string \<Rightarrow> string" where
  "normalize_description t = strip_trailing CR (strip_trailing LF t)"

section \<open>Clients and sample inputs\<close>

text \<open>A handler that calls \<open>what()\<close> on the same object \<open>n\<close> times in a row; it
  collects the texts returned.\<close>

fun what_calls ::
    "platform \<Rightarrow> exception_class \<Rightarrow> nat \<Rightarrow> 'a::len Exception \<Rightarrow> allocator
       \<Rightarrow> string list \<times> 'a Exception \<times> allocator" where
  "what_calls p cls 0 e h = ([], e, h)"
| "what_calls p cls (Suc n) e h =
     (case what p cls e h of
        (t, e', h') \<Rightarrow>
          (case what_calls p cls n e' h' of
             (ts, e'', h'') \<Rightarrow> (t # ts, e'', h'')))"

text \<open>Two description facilities for concrete runs: one whose text ends in CR LF, one
  that finds no text.\<close>

definition facility_crlf :: "32 word \<Rightarrow> string" where
  "facility_crlf ec = ''failed.'' @ [CR, LF]"

definition facility_none :: "32 word \<Rightarrow> string" where
  "facility_none ec = []"

text \<open>A category name of 100 characters, as the override of a user-defined subclass may
  return.\<close>

definition long_category :: string where
  "long_category = replicate 100 CHR ''A''"

section \<open>Bytes and nibbles of the code\<close>

lemma ucast_signed_drop_bit_byte:
  "n + 8 \<le> LENGTH('a) \<Longrightarrow>
   (ucast (signed_drop_bit n (w::'a::len word)) :: 8 word) = ucast (drop_bit n w)"
  by (rule bit_word_eqI) (auto simp: bit_simps)

lemma unat_byte:
  "unat (ucast (drop_bit (n * 8) (w::'a::len word)) :: 8 word) = unat w div 256 ^ n mod 256"
proof -
  have "(2::nat) ^ (n * 8) = 256 ^ n"
    by (simp add: mult.commute [of n 8] power_mult)
  moreover have "unat (drop_bit (n * 8) w) = unat w div 2 ^ (n * 8)"
    by (subst unat_drop_bit_eq) (rule drop_bit_eq_div)
  moreover have "unat (ucast (drop_bit (n * 8) w) :: 8 word) = unat (drop_bit (n * 8) w) mod 2 ^ 8"
    by (subst unsigned_ucast_eq) (simp add: take_bit_eq_mod)
  ultimately show ?thesis
    by simp
qed

lemma unat_high_nibble: "unat (drop_bit 4 (ch :: 8 word)) = unat ch div 16"
proof -
  have "unat (drop_bit 4 ch) = unat ch div 2 ^ 4"
    by (subst unat_drop_bit_eq) (rule drop_bit_eq_div)
  then show ?thesis by simp
qed

lemma unat_low_nibble: "unat ((ch :: 8 word) AND 0x0F) = unat ch mod 16"
proof -
  have "(0x0F :: 8 word) = mask 4"
    by (simp add: mask_eq_exp_minus_1)
  then have "unat (ch AND 0x0F) = unat (take_bit 4 ch)"
    by (simp only: take_bit_eq_mask)
  also have "\<dots> = unat ch mod 2 ^ 4"
    by (subst unsigned_take_bit_eq) (rule take_bit_eq_mod)
  finally show ?thesis by simp
qed

lemma shift_right_byte:
  assumes "n < sizeof_error_code ec"
  shows "unat (ucast (shift_right p ec (n * 8)) :: 8 word) = unat ec div 256 ^ n mod 256"
proof -
  from assms have "n * 8 + 8 \<le> LENGTH('a)"
    by (simp add: sizeof_error_code_def) 
  then have "(ucast (shift_right p ec (n * 8)) :: 8 word) = ucast (drop_bit (n * 8) ec)"
    by (cases p) (simp_all add: ucast_signed_drop_bit_byte)
  then show ?thesis
    by (simp add: unat_byte)
qed

lemma render_hex_Suc:
  "render_hex (Suc n) v = hex_byte (v div 256 ^ n mod 256) @ render_hex n v"
  by (simp add: render_hex_def)

lemma render_hex_0: "render_hex 0 v = []"
  by (simp add: render_hex_def)

lemma length_render_hex: "length (render_hex n v) = 2 * n"
  by (induction n) (simp_all add: render_hex_Suc render_hex_0 hex_byte_def)

lemma hex_digit_in_table: "n < 16 \<Longrightarrow> hex_digit n \<in> set ''0123456789ABCDEF''"
  unfolding hex_digit_def by (rule nth_mem) simp

lemma set_hex_byte: "b < 256 \<Longrightarrow> set (hex_byte b) \<subseteq> set ''0123456789ABCDEF''"
  using hex_digit_in_table [of "b div 16"] hex_digit_in_table [of "b mod 16"]
  by (simp add: hex_byte_def)

lemma set_render_hex: "set (render_hex n v) \<subseteq> set ''0123456789ABCDEF''"
proof (induction n)
  case 0
  show ?case by (simp add: render_hex_0)
next
  case (Suc n)
  have "set (hex_byte (v div 256 ^ n mod 256)) \<subseteq> set ''0123456789ABCDEF''"
    by (rule set_hex_byte) simp
  with Suc show ?case
    by (simp only: render_hex_Suc set_append Un_subset_iff)
qed

section \<open>String operations when no allocation fails\<close>

lemma allocate_no_fail: "no_fail h \<Longrightarrow> \<exists>h'. allocate h = (None, h') \<and> no_fail h'"
  by (cases h) auto

lemma reserve_ok:
  assumes "no_fail h"
  shows "\<exists>s' h'. reserve n s h = (Inr (), s', h') \<and> chars s' = chars s @ [] \<and> no_fail h'"
proof -
  from assms obtain h1 where "allocate h = (None, h1)" "no_fail h1"
    using allocate_no_fail by blast
  with assms show ?thesis
    by (simp add: reserve_def)
qed

lemma append_str_ok:
  assumes "no_fail h"
  shows "\<exists>s' h'. append_str t s h = (Inr (), s', h') \<and> chars s' = chars s @ t \<and> no_fail h'"
proof -
  from assms obtain h1 where "allocate h = (None, h1)" "no_fail h1"
    using allocate_no_fail by blast
  with assms show ?thesis
    by (simp add: append_str_def Let_def)
qed

lemma push_back_ok:
  assumes "no_fail h"
  shows "\<exists>s' h'. push_back c s h = (Inr (), s', h') \<and> chars s' = chars s @ [c] \<and> no_fail h'"
  unfolding push_back_def using assms by (rule append_str_ok)

lemma skip_ok:
  assumes "no_fail h"
  shows "\<exists>s' h'. skip s h = (Inr (), s', h') \<and> chars s' = chars s @ [] \<and> no_fail h'"
  using assms by (simp add: skip_def)

lemma seq_ok:
  assumes f: "\<And>s h. no_fail h \<Longrightarrow>
                \<exists>s' h'. f s h = (Inr (), s', h') \<and> chars s' = chars s @ t1 \<and> no_fail h'"
    and g: "\<And>s h. no_fail h \<Longrightarrow>
                \<exists>s' h'. g s h = (Inr (), s', h') \<and> chars s' = chars s @ t2 \<and> no_fail h'"
    and h: "no_fail h"
  shows "\<exists>s' h'. seq f g s h = (Inr (), s', h') \<and> chars s' = chars s @ t1 @ t2 \<and> no_fail h'"
proof -
  from f [OF h] obtain s1 h1 where
    1: "f s h = (Inr (), s1, h1)" "chars s1 = chars s @ t1" "no_fail h1"
    by blast
  from g [OF 1(3)] obtain s2 h2 where
    2: "g s1 h1 = (Inr (), s2, h2)" "chars s2 = chars s1 @ t2" "no_fail h2"
    by blast
  from 1 2 show ?thesis
    by (simp add: seq_def)
qed

lemma HEX_MAP_nth: "HEX_MAP ! n = hex_digit n"
  by (simp add: HEX_MAP_def hex_digit_def)

lemma hex_loop_ok:
  assumes "no_fail h" and "n \<le> sizeof_error_code ec"
  shows "\<exists>s' h'. hex_loop p ec n s h = (Inr (), s', h') \<and>
           chars s' = chars s @ render_hex n (unat ec) \<and> no_fail h'"
  using assms
proof (induction n arbitrary: s h)
  case 0
  then show ?case
    by (simp add: skip_def render_hex_0)
next
  case (Suc n)
  let ?ch = "ucast (shift_right p ec (n * 8)) :: 8 word"
  let ?b = "unat ec div 256 ^ n mod 256"
  from Suc.prems have byte: "unat ?ch = ?b"
    by (simp add: shift_right_byte)
  have rest: "\<And>s h. no_fail h \<Longrightarrow> \<exists>s' h'. hex_loop p ec n s h = (Inr (), s', h') \<and>
           chars s' = chars s @ render_hex n (unat ec) \<and> no_fail h'"
    using Suc.IH Suc.prems(2) by simp
  have "\<exists>s' h'. seq (push_back (HEX_MAP ! unat (drop_bit 4 ?ch)))
           (seq (push_back (HEX_MAP ! unat (?ch AND 0x0F))) (hex_loop p ec n)) s h
           = (Inr (), s', h') \<and>
         chars s' = chars s @ [HEX_MAP ! unat (drop_bit 4 ?ch)] @
           [HEX_MAP ! unat (?ch AND 0x0F)] @ render_hex n (unat ec) \<and> no_fail h'"
    by (rule seq_ok [OF push_back_ok seq_ok [OF push_back_ok rest] Suc.prems(1)])
  then show ?case
    by (simp add: Let_def HEX_MAP_nth unat_high_nibble unat_low_nibble byte
        render_hex_Suc hex_byte_def)
qed

lemma assemble_ok:
  assumes "no_fail h"
  shows "\<exists>m' h'. assemble p cls e m h = (Inr (), m', h') \<and>
           chars m' = chars m @
             render (std_string (category p cls e)) (sizeof_error_code (error_code_m e))
               (unat (error_code_m e)) (context_m e) (description_m e) \<and>
           no_fail h'"
proof -
  let ?ctx = "if context_m e \<noteq> [] then append_str (context_m e) else skip"
  let ?desc = "if description_m e \<noteq> []
               then seq (append_str '' '') (append_str (description_m e)) else skip"
  have ctx: "\<And>s h. no_fail h \<Longrightarrow>
      \<exists>s' h'. ?ctx s h = (Inr (), s', h') \<and> chars s' = chars s @ context_m e \<and> no_fail h'"
    using append_str_ok [of _ "context_m e"] skip_ok by (cases "context_m e = []") simp_all
  have desc: "\<exists>s' h'. ?desc s h = (Inr (), s', h') \<and>
        chars s' = chars s @ (if description_m e = [] then [] else '' '' @ description_m e) \<and>
        no_fail h'" if nf: "no_fail h" for s :: basic_string and h
  proof (cases "description_m e = []")
    case True
    with nf show ?thesis
      by (simp add: skip_def)
  next
    case False
    have "\<exists>s' h'. seq (append_str '' '') (append_str (description_m e)) s h = (Inr (), s', h') \<and>
            chars s' = chars s @ '' '' @ description_m e \<and> no_fail h'"
      by (rule seq_ok [OF append_str_ok append_str_ok nf])
    with False show ?thesis
      by simp
  qed
  have hex: "\<And>s h. no_fail h \<Longrightarrow>
      \<exists>s' h'. hex_loop p (error_code_m e) (sizeof_error_code (error_code_m e)) s h
                 = (Inr (), s', h') \<and>
        chars s' = chars s @
          render_hex (sizeof_error_code (error_code_m e)) (unat (error_code_m e)) \<and>
        no_fail h'"
    by (rule hex_loop_ok) simp_all
  have "\<exists>m' h'.
          seq (reserve (length (description_m e) + length (context_m e) + 100))
         (seq (append_str (std_string (category p cls e)))
         (seq (append_str ''[0x'')
         (seq (hex_loop p (error_code_m e) (sizeof_error_code (error_code_m e)))
         (seq (append_str '']'')
         (seq ?ctx ?desc))))) m h = (Inr (), m', h') \<and>
          chars m' = chars m @ [] @ std_string (category p cls e) @ ''[0x'' @
            render_hex (sizeof_error_code (error_code_m e)) (unat (error_code_m e)) @
            '']'' @ context_m e @
            (if description_m e = [] then [] else '' '' @ description_m e) \<and>
          no_fail h'"
    by (rule seq_ok [OF reserve_ok seq_ok [OF append_str_ok seq_ok [OF append_str_ok
          seq_ok [OF hex seq_ok [OF append_str_ok seq_ok [OF ctx desc]]]]] assms])
  then show ?thesis
    by (simp add: assemble_def render_def)
qed

section \<open>Texts without NUL\<close>

lemma std_string_id: "NUL \<notin> set s \<Longrightarrow> std_string s = s"
  by (auto simp: std_string_def takeWhile_eq_all_conv)

lemma NUL_notin_std_string: "NUL \<notin> set (std_string p)"
  by (auto simp: std_string_def dest: set_takeWhileD)

lemma std_string_terminated: "NUL \<notin> set s \<Longrightarrow> std_string (s @ [NUL] @ r) = s"
  by (induction s) (auto simp: std_string_def)

lemma std_string_c_str: "NUL \<notin> set (chars m) \<Longrightarrow> std_string (c_str m) = chars m"
  using std_string_terminated [of "chars m" "[]"] by (simp add: c_str_def)

lemma NUL_notin_render_hex: "NUL \<notin> set (render_hex n v)"
proof
  assume "NUL \<in> set (render_hex n v)"
  with set_render_hex [of n v] have "NUL \<in> set ''0123456789ABCDEF''"
    by blast
  then show False
    by (simp add: NUL_def)
qed

lemma NUL_notin_render:
  assumes "NUL \<notin> set cat" and "NUL \<notin> set x" and "NUL \<notin> set d"
  shows "NUL \<notin> set (render cat sz v x d)"
  using assms NUL_notin_render_hex [of sz v] by (simp add: render_def NUL_def)

lemma render_not_Nil: "render cat sz v x d \<noteq> []"
  by (simp add: render_def)

lemma what_cached:
  "\<not> empty_str (message_m e) \<Longrightarrow> what p cls e h = (std_string (c_str (message_m e)), e, h)"
  by (simp add: what_def)

lemma what_ok:
  assumes "no_fail h" and "empty_str (message_m e)"
  shows "\<exists>m' h'. what p cls e h = (std_string (c_str m'), e\<lparr>message_m := m'\<rparr>, h') \<and>
           chars m' = render (std_string (category p cls e))
             (sizeof_error_code (error_code_m e)) (unat (error_code_m e))
             (context_m e) (description_m e) \<and> no_fail h'"
proof -
  from assemble_ok [OF assms(1), of p cls e "message_m e"] obtain m' h' where
    a: "assemble p cls e (message_m e) h = (Inr (), m', h')"
    and m: "chars m' = chars (message_m e) @ render (std_string (category p cls e))
       (sizeof_error_code (error_code_m e)) (unat (error_code_m e))
       (context_m e) (description_m e)"
    and h': "no_fail h'"
    by blast
  from a assms(2) have "what p cls e h = (std_string (c_str m'), e\<lparr>message_m := m'\<rparr>, h')"
    by (simp add: what_def)
  moreover from m assms(2) have "chars m' = render (std_string (category p cls e))
       (sizeof_error_code (error_code_m e)) (unat (error_code_m e))
       (context_m e) (description_m e)"
    by (simp add: empty_str_def)
  ultimately show ?thesis
    using h' by blast
qed

lemma what_fresh_text:
  assumes "no_fail h"
  shows "fst (what p cls (Exception_code_context_description c x d) h) =
           render (std_string (category p cls (Exception_code_context_description c x d)))
             (sizeof_error_code c) (unat c) (std_string x) (std_string d)"
proof -
  let ?e = "Exception_code_context_description c x d"
  have empty: "empty_str (message_m ?e)"
    by (simp add: Exception_code_context_description_def empty_string_def empty_str_def)
  from what_ok [OF assms empty, of p cls] obtain m' h' where
    w: "what p cls ?e h = (std_string (c_str m'), ?e\<lparr>message_m := m'\<rparr>, h')"
    and m: "chars m' = render (std_string (category p cls ?e))
             (sizeof_error_code (error_code_m ?e)) (unat (error_code_m ?e))
             (context_m ?e) (description_m ?e)"
    by blast
  have fields: "error_code_m ?e = c" "context_m ?e = std_string x"
    "description_m ?e = std_string d"
    by (simp_all add: Exception_code_context_description_def)
  have "NUL \<notin> set (chars m')"
    unfolding m fields by (rule NUL_notin_render) (rule NUL_notin_std_string)+
  then have "std_string (c_str m') = chars m'"
    by (rule std_string_c_str)
  with w m fields show ?thesis
    by simp
qed


section \<open>The description of a system error\<close>

lemma strip_step:
  assumes "NUL \<notin> set u"
  shows "\<exists>r'. (if length u > 0 \<and> (u @ NUL # r) ! (length u - 1) = c
           then ((u @ NUL # r)[length u - 1 := NUL], length u - 1)
           else (u @ NUL # r, length u))
         = (strip_trailing c u @ NUL # r', length (strip_trailing c u))"
proof (cases u rule: rev_cases)
  case Nil
  then show ?thesis
    by (simp add: strip_trailing_def)
next
  case (snoc v x)
  then show ?thesis
    by (simp add: strip_trailing_def nth_append list_update_append)
qed

lemma NUL_notin_strip_trailing: "NUL \<notin> set u \<Longrightarrow> NUL \<notin> set (strip_trailing c u)"
  by (auto simp: strip_trailing_def dest: in_set_butlastD)

lemma GetWin32ErrorDescription_normalize:
  assumes "NUL \<notin> set (FormatMessageA ec)"
  shows "GetWin32ErrorDescription FormatMessageA ec = normalize_description (FormatMessageA ec)"
proof (cases "FormatMessageA ec = []")
  case True
  then show ?thesis
    by (simp add: GetWin32ErrorDescription_def normalize_description_def strip_trailing_def)
next
  case False
  let ?t = "FormatMessageA ec"
  let ?u = "strip_trailing LF ?t"
  from strip_step [OF assms, of "[]" LF] obtain r1 where
    1: "(if length ?t > 0 \<and> (?t @ [NUL]) ! (length ?t - 1) = LF
           then ((?t @ [NUL])[length ?t - 1 := NUL], length ?t - 1)
           else (?t @ [NUL], length ?t))
         = (?u @ NUL # r1, length ?u)"
    by blast
  have u: "NUL \<notin> set ?u"
    using assms by (rule NUL_notin_strip_trailing)
  from strip_step [OF u, of r1 CR] obtain r2 where
    2: "(if length ?u > 0 \<and> (?u @ NUL # r1) ! (length ?u - 1) = CR
           then ((?u @ NUL # r1)[length ?u - 1 := NUL], length ?u - 1)
           else (?u @ NUL # r1, length ?u))
         = (strip_trailing CR ?u @ NUL # r2, length (strip_trailing CR ?u))"
    by blast
  have "NUL \<notin> set (strip_trailing CR ?u)"
    using u by (rule NUL_notin_strip_trailing)
  then have "std_string (strip_trailing CR ?u @ [NUL] @ r2) = strip_trailing CR ?u"
    by (rule std_string_terminated)
  with False 1 2 show ?thesis
    by (simp add: GetWin32ErrorDescription_def Let_def normalize_description_def)
qed

lemma NUL_notin_GetWin32ErrorDescription: "NUL \<notin> set (GetWin32ErrorDescription F ec)"
  by (simp add: GetWin32ErrorDescription_def Let_def NUL_notin_std_string split: prod.split)

lemma SystemException_WIN32_description:
  "description_m (SystemException_WIN32 F ec ctx) = GetWin32ErrorDescription F ec"
  using std_string_c_str [of "\<lparr>chars = GetWin32ErrorDescription F ec, capacity = 15\<rparr>"]
  by (simp add: SystemException_WIN32_def Exception_code_context_description_def
      NUL_notin_GetWin32ErrorDescription)

lemma SystemException_POSIX_description:
  "description_m (SystemException_POSIX strerror ec cnt) = std_string (strerror ec)"
  by (simp add: SystemException_POSIX_def Exception_code_context_description_def)

lemma normalize_description_crlf: "normalize_description (t @ [CR, LF]) = t"
  by (simp add: normalize_description_def strip_trailing_def butlast_append CR_def LF_def)


section \<open>Repeated calls and the other members\<close>

lemma category_state_independent: "category p cls e' = category p cls e"
  by (cases p; cases cls) simp_all

lemma what_frame:
  "what p cls e h = (t, e', h') \<Longrightarrow> e' = e\<lparr>message_m := message_m e'\<rparr>"
  by (auto simp: what_def split: if_splits prod.splits sum.splits)

lemma what_calls_frame:
  "what_calls p cls n e h = (ts, e', h') \<Longrightarrow> e' = e\<lparr>message_m := message_m e'\<rparr>"
proof (induction n arbitrary: e h ts e' h')
  case 0
  then show ?case by simp
next
  case (Suc n)
  obtain t e1 h1 where w: "what p cls e h = (t, e1, h1)"
    by (cases "what p cls e h") auto
  obtain ts' e2 h2 where r: "what_calls p cls n e1 h1 = (ts', e2, h2)"
    by (cases "what_calls p cls n e1 h1") auto
  from Suc.prems w r have e': "e' = e2"
    by simp
  from what_frame [OF w] have 1: "e1 = e\<lparr>message_m := message_m e1\<rparr>" .
  from Suc.IH [OF r] have 2: "e2 = e1\<lparr>message_m := message_m e2\<rparr>" .
  have "e2 = e\<lparr>message_m := message_m e2\<rparr>"
    by (subst 2, subst 1) simp
  with e' show ?case by simp
qed

lemma ucast_minus_1_byte: "8 \<le> LENGTH('a) \<Longrightarrow> (ucast (- 1 :: 'a::len word) :: 8 word) = - 1"
  by (rule bit_word_eqI) (auto simp: bit_simps)

lemma render_hex_minus_1:
  assumes "n \<le> sizeof_error_code (- 1 :: 'a::len word)"
  shows "render_hex n (unat (- 1 :: 'a word)) = replicate (2 * n) CHR ''F''"
  using assms
proof (induction n)
  case 0
  show ?case by (simp add: render_hex_0)
next
  case (Suc n)
  then have n: "n < sizeof_error_code (- 1 :: 'a word)"
    by simp
  then have "8 \<le> LENGTH('a)"
    by (simp add: sizeof_error_code_def)
  moreover have "unat (- 1 :: 8 word) = 255"
    by (simp add: unsigned_minus_1_eq_mask mask_eq_exp_minus_1)
  ultimately have "unat (ucast (shift_right Posix (- 1 :: 'a word) (n * 8)) :: 8 word) = 255"
    by (simp add: ucast_minus_1_byte)
  with shift_right_byte [OF n, of Posix]
  have "unat (- 1 :: 'a word) div 256 ^ n mod 256 = 255"
    by simp
  with Suc show ?case
    by (simp add: render_hex_Suc hex_byte_def hex_digit_def)
qed

lemma unat_twos_complement:
  "unat (ec :: 'a::len word) = nat (sint ec mod 2 ^ LENGTH('a))"
proof -
  have "uint ec = sint ec mod 2 ^ LENGTH('a)"
    by (simp add: uint_sint take_bit_eq_mod)
  then show ?thesis
    by (simp add: unat_eq_nat_uint)
qed

lemma sint_negative_mod:
  assumes "sint (ec :: 'a::len word) < 0"
  shows "sint ec mod 2 ^ LENGTH('a) = 2 ^ LENGTH('a) + sint ec"
proof -
  have "- (2 ^ (LENGTH('a) - 1)) \<le> sint ec"
    by (rule sint_ge)
  moreover have "(2::int) ^ (LENGTH('a) - 1) \<le> 2 ^ LENGTH('a)"
    by (rule power_increasing) simp_all
  ultimately have "0 \<le> 2 ^ LENGTH('a) + sint ec"
    by linarith
  moreover from assms have "2 ^ LENGTH('a) + sint ec < 2 ^ LENGTH('a)"
    by simp
  ultimately have "(2 ^ LENGTH('a) + sint ec) mod 2 ^ LENGTH('a) = 2 ^ LENGTH('a) + sint ec"
    by (rule mod_pos_pos_trivial)
  then show ?thesis
    by simp
qed

section \<open>String operations that fit into the capacity\<close>

text \<open>
  After \<open>reserve\<close> has succeeded, an append that fits into the capacity makes no
  allocation request and cannot throw. When the category and the fixed part of the
  message fit into the 100 characters that \<open>what()\<close> reserves on top of the context and
  the description, only \<open>reserve\<close> itself can throw, and \<open>message_m\<close> is then either
  still empty or the full rendering. This holds for \<open>SystemException\<close> on both
  platforms.
\<close>

lemma append_str_fits:
  "length (chars s) + length t \<le> capacity s \<Longrightarrow>
   append_str t s h = (Inr (), s\<lparr>chars := chars s @ t\<rparr>, h)"
  by (simp add: append_str_def)

lemma push_back_fits:
  "length (chars s) + length [c] \<le> capacity s \<Longrightarrow>
   push_back c s h = (Inr (), s\<lparr>chars := chars s @ [c]\<rparr>, h)"
  unfolding push_back_def by (rule append_str_fits)

lemma skip_fits:
  "length (chars s) + length ([] :: string) \<le> capacity s \<Longrightarrow>
   skip s h = (Inr (), s\<lparr>chars := chars s @ []\<rparr>, h)"
  by (simp add: skip_def)

lemma seq_fits:
  assumes f: "\<And>s h. length (chars s) + length t1 \<le> capacity s \<Longrightarrow>
                f s h = (Inr (), s\<lparr>chars := chars s @ t1\<rparr>, h)"
    and g: "\<And>s h. length (chars s) + length t2 \<le> capacity s \<Longrightarrow>
                g s h = (Inr (), s\<lparr>chars := chars s @ t2\<rparr>, h)"
    and fits: "length (chars s) + length (t1 @ t2) \<le> capacity s"
  shows "seq f g s h = (Inr (), s\<lparr>chars := chars s @ t1 @ t2\<rparr>, h)"
proof -
  let ?s1 = "s\<lparr>chars := chars s @ t1\<rparr>"
  from fits have 1: "f s h = (Inr (), ?s1, h)"
    by (intro f) simp
  from fits have "g ?s1 h = (Inr (), ?s1\<lparr>chars := chars ?s1 @ t2\<rparr>, h)"
    by (intro g) simp
  with 1 show ?thesis
    by (simp add: seq_def)
qed

lemma hex_loop_fits:
  assumes "n \<le> sizeof_error_code ec"
    and "length (chars s) + length (render_hex n (unat ec)) \<le> capacity s"
  shows "hex_loop p ec n s h = (Inr (), s\<lparr>chars := chars s @ render_hex n (unat ec)\<rparr>, h)"
  using assms
proof (induction n arbitrary: s h)
  case 0
  then show ?case
    by (simp add: skip_def render_hex_0)
next
  case (Suc n)
  let ?ch = "ucast (shift_right p ec (n * 8)) :: 8 word"
  let ?hi = "HEX_MAP ! unat (drop_bit 4 ?ch)"
  let ?lo = "HEX_MAP ! unat (?ch AND 0x0F)"
  from Suc.prems have byte: "unat ?ch = unat ec div 256 ^ n mod 256"
    by (simp add: shift_right_byte)
  have split: "render_hex (Suc n) (unat ec) = [?hi] @ [?lo] @ render_hex n (unat ec)"
    by (simp add: render_hex_Suc hex_byte_def HEX_MAP_nth unat_high_nibble unat_low_nibble byte)
  have rest: "\<And>s h. length (chars s) + length (render_hex n (unat ec)) \<le> capacity s \<Longrightarrow>
      hex_loop p ec n s h = (Inr (), s\<lparr>chars := chars s @ render_hex n (unat ec)\<rparr>, h)"
    using Suc.IH Suc.prems(1) by simp
  from Suc.prems(2) have fits: "length (chars s) + length ([?hi] @ [?lo] @ render_hex n (unat ec))
      \<le> capacity s"
    by (simp only: split)
  have "seq (push_back ?hi) (seq (push_back ?lo) (hex_loop p ec n)) s h =
          (Inr (), s\<lparr>chars := chars s @ [?hi] @ [?lo] @ render_hex n (unat ec)\<rparr>, h)"
    by (rule seq_fits [OF push_back_fits seq_fits [OF push_back_fits rest] fits])
  then show ?case
    by (simp add: Let_def split)
qed

lemma assemble_fits:
  assumes cap: "length (description_m e) + length (context_m e) + 100 \<le> capacity m"
    and short: "length (std_string (category p cls e)) +
                  2 * sizeof_error_code (error_code_m e) + 5 \<le> 100"
    and empty: "chars m = []"
  shows "assemble p cls e m h = (Inr (), m\<lparr>chars := rendering p cls e\<rparr>, h)"
proof -
  let ?ctx = "if context_m e \<noteq> [] then append_str (context_m e) else skip"
  let ?desc = "if description_m e \<noteq> []
               then seq (append_str '' '') (append_str (description_m e)) else skip"
  let ?d = "if description_m e = [] then [] else '' '' @ description_m e"
  let ?hex = "render_hex (sizeof_error_code (error_code_m e)) (unat (error_code_m e))"
  have ctx: "?ctx s h = (Inr (), s\<lparr>chars := chars s @ context_m e\<rparr>, h)"
    if "length (chars s) + length (context_m e) \<le> capacity s" for s h
    using that by (cases "context_m e = []") (simp_all add: append_str_fits skip_def)
  have desc: "?desc s h = (Inr (), s\<lparr>chars := chars s @ ?d\<rparr>, h)"
    if fits: "length (chars s) + length ?d \<le> capacity s" for s h
  proof (cases "description_m e = []")
    case True
    then show ?thesis
      by (simp add: skip_def)
  next
    case False
    with fits have fits2: "length (chars s) + length ('' '' @ description_m e) \<le> capacity s"
      by simp
    have "seq (append_str '' '') (append_str (description_m e)) s h =
        (Inr (), s\<lparr>chars := chars s @ '' '' @ description_m e\<rparr>, h)"
      by (rule seq_fits [OF append_str_fits append_str_fits fits2])
    with False show ?thesis
      by simp
  qed
  have hex: "hex_loop p (error_code_m e) (sizeof_error_code (error_code_m e)) s h =
      (Inr (), s\<lparr>chars := chars s @ ?hex\<rparr>, h)"
    if "length (chars s) + length ?hex \<le> capacity s" for s h
    using that by (intro hex_loop_fits) simp_all
  have res: "reserve (length (description_m e) + length (context_m e) + 100) s h =
      (Inr (), s\<lparr>chars := chars s @ []\<rparr>, h)"
    if "length (description_m e) + length (context_m e) + 100 \<le> capacity s" for s h
    using that by (simp add: reserve_def)
  have fits: "length (chars m) + length (std_string (category p cls e) @ ''[0x'' @ ?hex @
      '']'' @ context_m e @ ?d) \<le> capacity m"
    using cap short empty by (simp add: length_render_hex)
  have "seq (append_str (std_string (category p cls e)))
         (seq (append_str ''[0x'')
         (seq (hex_loop p (error_code_m e) (sizeof_error_code (error_code_m e)))
         (seq (append_str '']'')
         (seq ?ctx ?desc)))) m h =
        (Inr (), m\<lparr>chars := chars m @ std_string (category p cls e) @ ''[0x'' @ ?hex @
          '']'' @ context_m e @ ?d\<rparr>, h)"
    by (rule seq_fits [OF append_str_fits seq_fits [OF append_str_fits
          seq_fits [OF hex seq_fits [OF append_str_fits seq_fits [OF ctx desc]]]] fits])
  with cap empty show ?thesis
    by (simp add: assemble_def rendering_def render_def seq_def reserve_def)
qed

lemma assemble_after_reserve:
  assumes "\<not> length (description_m e) + length (context_m e) + 100 \<le> capacity m"
    and "allocate h = (None, h')"
  shows "assemble p cls e m h =
         assemble p cls e (m\<lparr>capacity := length (description_m e) + length (context_m e) + 100\<rparr>) h'"
  using assms by (simp add: assemble_def seq_def reserve_def)

lemma assemble_reserve_throws:
  assumes "\<not> length (description_m e) + length (context_m e) + 100 \<le> capacity m"
    and "allocate h = (Some ex, h')"
  shows "assemble p cls e m h = (Inl ex, m, h')"
  using assms by (simp add: assemble_def seq_def reserve_def)

lemma assemble_all_or_nothing:
  assumes short: "length (std_string (category p cls e)) +
                    2 * sizeof_error_code (error_code_m e) + 5 \<le> 100"
    and empty: "chars m = []"
  shows "(\<exists>ex h'. assemble p cls e m h = (Inl ex, m, h')) \<or>
         (\<exists>m' h'. assemble p cls e m h = (Inr (), m', h') \<and> chars m' = rendering p cls e)"
proof (cases "length (description_m e) + length (context_m e) + 100 \<le> capacity m")
  case True
  from assemble_fits [OF True short empty, of h] show ?thesis
    by simp
next
  case False
  obtain r h' where a: "allocate h = (r, h')"
    by (cases "allocate h") auto
  show ?thesis
  proof (cases r)
    case None
    let ?m = "m\<lparr>capacity := length (description_m e) + length (context_m e) + 100\<rparr>"
    have "assemble p cls e ?m h' = (Inr (), ?m\<lparr>chars := rendering p cls e\<rparr>, h')"
      by (rule assemble_fits) (simp_all add: short empty)
    with assemble_after_reserve [OF False, of h h' p cls] a None show ?thesis
      by simp
  next
    case (Some ex)
    with assemble_reserve_throws [OF False, of h ex h' p cls] a show ?thesis
      by simp
  qed
qed

lemma what_all_or_nothing:
  assumes short: "length (std_string (category p cls e)) +
                    2 * sizeof_error_code (error_code_m e) + 5 \<le> 100"
    and empty: "empty_str (message_m e)"
    and w: "what p cls e h = (t, e', h')"
  shows "(chars (message_m e') = [] \<and> (\<exists>ex. t = ex_what ex)) \<or>
         chars (message_m e') = rendering p cls e"
proof -
  from empty have "chars (message_m e) = []"
    by (simp add: empty_str_def)
  from assemble_all_or_nothing [OF short this, of h]
  show ?thesis
  proof
    assume "\<exists>ex h'. assemble p cls e (message_m e) h = (Inl ex, message_m e, h')"
    with w empty show ?thesis
      by (auto simp: what_def empty_str_def)
  next
    assume "\<exists>m' h'. assemble p cls e (message_m e) h = (Inr (), m', h') \<and>
              chars m' = rendering p cls e"
    with w empty show ?thesis
      by (auto simp: what_def)
  qed
qed

lemma rendering_frame: "e' = e\<lparr>message_m := m\<rparr> \<Longrightarrow> rendering p cls e' = rendering p cls e"
  by (simp add: rendering_def category_state_independent [of p cls "e\<lparr>message_m := m\<rparr>" e])

lemma rendering_not_Nil: "rendering p cls e \<noteq> []"
  by (simp add: rendering_def render_not_Nil)

lemma what_cache_invariant:
  assumes short: "length (std_string (category p cls e)) +
                    2 * sizeof_error_code (error_code_m e) + 5 \<le> 100"
    and inv: "chars (message_m e) = [] \<or> chars (message_m e) = rendering p cls e"
    and w: "what p cls e h = (t, e', h')"
  shows "chars (message_m e') = [] \<or> chars (message_m e') = rendering p cls e"
proof (cases "empty_str (message_m e)")
  case True
  from what_all_or_nothing [OF short True w] show ?thesis
    by blast
next
  case False
  with w have "e' = e"
    by (simp add: what_cached)
  with inv show ?thesis
    by simp
qed

lemma what_calls_cache_invariant:
  assumes short: "length (std_string (category p cls e)) +
                    2 * sizeof_error_code (error_code_m e) + 5 \<le> 100"
    and inv: "chars (message_m e) = [] \<or> chars (message_m e) = rendering p cls e"
    and r: "what_calls p cls n e h = (ts, e', h')"
  shows "chars (message_m e') = [] \<or> chars (message_m e') = rendering p cls e"
  using assms
proof (induction n arbitrary: e h ts e' h')
  case 0
  then show ?case by simp
next
  case (Suc n)
  obtain t e1 h1 where w: "what p cls e h = (t, e1, h1)"
    by (cases "what p cls e h") auto
  obtain ts' e2 h2 where c: "what_calls p cls n e1 h1 = (ts', e2, h2)"
    by (cases "what_calls p cls n e1 h1") auto
  from Suc.prems(3) w c have e': "e' = e2"
    by simp
  from what_frame [OF w] have f: "e1 = e\<lparr>message_m := message_m e1\<rparr>" .
  then have same: "rendering p cls e1 = rendering p cls e"
    by (rule rendering_frame)
  have cat: "category p cls e1 = category p cls e"
    by (rule category_state_independent)
  have code: "sizeof_error_code (error_code_m e1) = sizeof_error_code (error_code_m e)"
    by (simp add: sizeof_error_code_def)
  from what_cache_invariant [OF Suc.prems(1,2) w]
  have inv1: "chars (message_m e1) = [] \<or> chars (message_m e1) = rendering p cls e1"
    by (simp add: same)
  from Suc.prems(1) have short1: "length (std_string (category p cls e1)) +
      2 * sizeof_error_code (error_code_m e1) + 5 \<le> 100"
    by (simp add: cat code)
  have "chars (message_m e2) = [] \<or> chars (message_m e2) = rendering p cls e1"
    by (rule Suc.IH [OF short1 inv1 c])
  with e' same show ?case
    by simp
qed

lemma what_retry_after_throw:
  assumes failed: "what p cls e h = (t, e', h')" "empty_str (message_m e')"
    and again: "no_fail h2"
  shows "\<exists>m'' h''. what p cls e' h2 = (std_string (c_str m''), e'\<lparr>message_m := m''\<rparr>, h'') \<and>
           chars m'' = rendering p cls e"
proof -
  from what_frame [OF failed(1)] have "e' = e\<lparr>message_m := message_m e'\<rparr>" .
  then have "rendering p cls e' = rendering p cls e"
    by (rule rendering_frame)
  moreover from what_ok [OF again failed(2), of p cls] obtain m'' h'' where
    "what p cls e' h2 = (std_string (c_str m''), e'\<lparr>message_m := m''\<rparr>, h'')"
    "chars m'' = rendering p cls e'"
    unfolding rendering_def by blast
  ultimately show ?thesis
    by auto
qed

lemma SystemException_fits:
  assumes "LENGTH('a) \<le> 64"
  shows "length (std_string (category p SystemException (e :: 'a::len Exception))) +
           2 * sizeof_error_code (error_code_m e) + 5 \<le> 100"
proof -
  have "length (std_string (category p SystemException e)) = 5"
    by (cases p) (simp_all add: std_string_def NUL_def)
  moreover from assms have "sizeof_error_code (error_code_m e) \<le> 8"
    by (simp add: sizeof_error_code_def)
  ultimately show ?thesis
    by simp
qed

section \<open>Concrete runs\<close>

lemma render_hex_2: "render_hex (sizeof_error_code (2 :: 32 word)) 2 = ''00000002''"
  by (simp add: sizeof_error_code_def render_hex_def hex_byte_def hex_digit_def upt_rec)


lemma render_hex_sample: "render_hex 4 305441741 = ''1234ABCD''"
  by (simp add: render_hex_def hex_byte_def hex_digit_def upt_rec)


lemmas what_eval = what_def assemble_def seq_def reserve_def append_str_def push_back_def
  skip_def empty_str_def Exception_code_def Exception_code_context_description_def
  empty_string_def sizeof_error_code_def c_str_def HEX_MAP_def Let_def

lemma std_string_long_category: "std_string long_category = long_category"
  by (rule std_string_id) (simp add: long_category_def NUL_def)

lemma length_long_category: "length long_category = 100"
  by (simp add: long_category_def)

lemma hex_loop_4:
  "hex_loop p ec 4 = hex_loop p ec (Suc (Suc (Suc (Suc 0))))"
  by (simp add: eval_nat_numeral)

lemma Exception_code_as_full:
  "Exception_code ec = Exception_code_context_description ec [] []"
  by (simp add: Exception_code_def Exception_code_context_description_def std_string_def)

lemma what_code_only_text:
  assumes "no_fail h"
  shows "fst (what p cls (Exception_code ec) h) =
           std_string (category p cls (Exception_code ec)) @ ''[0x'' @
           render_hex (sizeof_error_code ec) (unat ec) @ '']''"
  using what_fresh_text [OF assms, of p cls ec "[]" "[]"]
  by (simp add: Exception_code_as_full render_def std_string_def)

lemma replicate_F: "replicate (2 * sizeof_error_code (- 1 :: 32 word)) CHR ''F'' = ''FFFFFFFF''"
proof -
  have "2 * sizeof_error_code (- 1 :: 32 word) = Suc (Suc (Suc (Suc (Suc (Suc (Suc (Suc 0)))))))"
    by (simp add: sizeof_error_code_def)
  then show ?thesis
    by (simp only: replicate.simps)
qed

lemma rendering_sample:
  "rendering Posix (Custom long_category)
     (Exception_code_context_description (2 :: 32 word) ''open'' ''denied'') =
   long_category @ ''[0x00000002]open denied''"
proof -
  have "std_string ''open'' = ''open''" and "std_string ''denied'' = ''denied''"
    by (simp_all add: std_string_def NUL_def)
  then show ?thesis
    by (simp add: rendering_def render_def Exception_code_context_description_def
        std_string_long_category render_hex_2)
qed

section \<open>The claims\<close>

text \<open>
  C1. The claim: when assembly throws inside \<open>what()\<close>, the call returns the
  exception's text, leaves \<open>message_m\<close> empty, and a later call assembles again from
  scratch. The run below refutes the last two parts on the code. The object is of a
  subclass whose category has 100 characters; \<open>reserve(100)\<close> succeeds, the category is
  appended and fills the buffer, and the allocation that \<open>append("[0x")\<close> needs throws.
  The handler returns the exception's text and does not clear \<open>message_m\<close>, which keeps
  the bare category. The second call finds \<open>message_m\<close> non-empty and returns the bare
  category without assembling anything.
\<close>

theorem what_throw_leaves_partial_message:
  "what Windows (Custom long_category) (Exception_code (5 :: 32 word))
       [None, Some (Std_exception ''std::bad_alloc'')] =
     (''std::bad_alloc'',
      (Exception_code 5)\<lparr>message_m := \<lparr>chars = long_category, capacity = 100\<rparr>\<rparr>, []) \<and>
   what Windows (Custom long_category)
       ((Exception_code (5 :: 32 word))\<lparr>message_m := \<lparr>chars = long_category, capacity = 100\<rparr>\<rparr>) [] =
     (long_category,
      (Exception_code 5)\<lparr>message_m := \<lparr>chars = long_category, capacity = 100\<rparr>\<rparr>, [])"
proof -
  have ne: "long_category \<noteq> []"
    by (simp add: long_category_def)
  have "NUL \<notin> set long_category"
    by (simp add: long_category_def NUL_def)
  then have "std_string (long_category @ [NUL] @ []) = long_category"
    by (rule std_string_terminated)
  with ne show ?thesis
    by (simp add: what_eval std_string_long_category length_long_category)
qed

text \<open>
  C2. On a freshly constructed object, when no allocation fails, \<open>what()\<close> returns
  exactly the category, \<open>[0x\<close>, the hexadecimal code, \<open>]\<close>, the context and, when the
  description is not empty, a space and the description. \<open>x\<close> and \<open>d\<close> are the texts
  of the C strings passed to the constructor, so they hold no NUL. With an empty
  \<open>x\<close> nothing stands between \<open>]\<close> and the rest; with an empty \<open>d\<close> the text
  ends after the context.
\<close>

theorem what_fresh_render:
  assumes "no_fail h" and "NUL \<notin> set x" and "NUL \<notin> set d"
    and "NUL \<notin> set (category p cls (Exception_code_context_description c x d))"
  shows "fst (what p cls (Exception_code_context_description c x d) h) =
           category p cls (Exception_code_context_description c x d) @ ''[0x'' @
           render_hex (sizeof_error_code c) (unat c) @ '']'' @ x @
           (if d = [] then [] else '' '' @ d)"
  using what_fresh_text [OF assms(1), of p cls c x d] assms(2-4)
  by (simp add: std_string_id render_def)

theorem what_fresh_render_witness:
  "no_fail [] \<and> NUL \<notin> set ''open config'' \<and> NUL \<notin> set ''No such file or directory'' \<and>
   fst (what Posix SystemException
     (Exception_code_context_description (2 :: 32 word) ''open config''
        ''No such file or directory'') []) =
   ''POSIX[0x00000002]open config No such file or directory''"
proof -
  have "fst (what Posix SystemException
     (Exception_code_context_description (2 :: 32 word) ''open config''
        ''No such file or directory'') []) =
     category Posix SystemException (Exception_code_context_description (2 :: 32 word)
        ''open config'' ''No such file or directory'') @ ''[0x'' @
     render_hex (sizeof_error_code (2 :: 32 word)) (unat (2 :: 32 word)) @ '']'' @
     ''open config'' @
     (if ''No such file or directory'' = [] then [] else '' '' @ ''No such file or directory'')"
    by (rule what_fresh_render) (simp_all add: NUL_def)
  then show ?thesis
    by (simp add: render_hex_2 NUL_def)
qed

text \<open>
  C3. The claim: between operations \<open>message_m\<close> is either empty or the full
  rendering, never a partly assembled text. The run below refutes it on the code:
  with the 100-character category, context \<open>open\<close> and description \<open>denied\<close>,
  \<open>reserve(110)\<close> succeeds, the category, \<open>[0x\<close> and seven hexadecimal digits fill
  the buffer, and the allocation for the eighth digit throws. \<open>message_m\<close> then holds
  the text up to the seventh digit, which is neither empty nor the full rendering.
\<close>

theorem cached_message_partial_after_throw:
  "what Posix (Custom long_category)
      (Exception_code_context_description (2 :: 32 word) ''open'' ''denied'')
      [None, Some (Std_exception ''std::bad_alloc'')] =
     (''std::bad_alloc'',
      (Exception_code_context_description 2 ''open'' ''denied'')
        \<lparr>message_m := \<lparr>chars = long_category @ ''[0x0000000'', capacity = 110\<rparr>\<rparr>,
      []) \<and>
   long_category @ ''[0x0000000'' \<noteq> [] \<and>
   long_category @ ''[0x0000000'' \<noteq>
     rendering Posix (Custom long_category)
       (Exception_code_context_description (2 :: 32 word) ''open'' ''denied'')"
proof -
  have "std_string ''open'' = ''open''" and "std_string ''denied'' = ''denied''"
    by (simp_all add: std_string_def NUL_def)
  then show ?thesis
    by (simp add: rendering_sample)
       (simp add: what_eval std_string_long_category length_long_category hex_loop_4)
qed

text \<open>
  C4, as amended. The Windows constructor stores the text of \<open>FormatMessageA\<close> with
  at most one trailing line feed and then at most one trailing carriage return
  stripped; a text ending in CR LF loses both. The POSIX constructor stores the text of
  \<open>strerror\<close> as it is.
\<close>

theorem SystemException_description_normalization:
  assumes "NUL \<notin> set (FormatMessageA ec)"
  shows "Exception_description (SystemException_WIN32 FormatMessageA ec ctx) =
           normalize_description (FormatMessageA ec) \<and>
         (FormatMessageA ec = t @ [CR, LF] \<longrightarrow>
            Exception_description (SystemException_WIN32 FormatMessageA ec ctx) = t) \<and>
         Exception_description (SystemException_POSIX strerror ec' cnt) =
           std_string (strerror ec')"
proof -
  have w: "Exception_description (SystemException_WIN32 FormatMessageA ec ctx) =
             normalize_description (FormatMessageA ec)"
    using assms
    by (simp add: Exception_description_def SystemException_WIN32_description
        GetWin32ErrorDescription_normalize)
  have c: "FormatMessageA ec = t @ [CR, LF] \<longrightarrow>
             Exception_description (SystemException_WIN32 FormatMessageA ec ctx) = t"
    unfolding w using normalize_description_crlf [of t] by auto
  have x: "Exception_description (SystemException_POSIX strerror ec' cnt) =
             std_string (strerror ec')"
    by (simp add: Exception_description_def SystemException_POSIX_description)
  from w c x show ?thesis
    by blast
qed

theorem SystemException_description_normalization_witness:
  "NUL \<notin> set (facility_crlf 5) \<and> facility_crlf 5 = ''failed.'' @ [CR, LF] \<and>
   Exception_description (SystemException_WIN32 facility_crlf 5 ''read'') = ''failed.'' \<and>
   Exception_description (SystemException_POSIX facility_crlf 5 ''read'') =
     ''failed.'' @ [CR, LF]"
  using SystemException_description_normalization
    [of facility_crlf 5 "''read''" "''failed.''" facility_crlf 5 "''read''"]
    normalize_description_crlf [of "''failed.''"]
  by (simp add: facility_crlf_def NUL_def CR_def LF_def std_string_def)

text \<open>
  C4 as stated fails on the POSIX variant: given a text that ends in CR LF it stores
  both characters.
\<close>

theorem posix_description_not_normalized:
  "normalize_description (facility_crlf 1) = ''failed.'' \<and>
   Exception_description (SystemException_POSIX facility_crlf 1 ''read'') =
     ''failed.'' @ [CR, LF] \<and>
   Exception_description (SystemException_POSIX facility_crlf 1 ''read'') \<noteq>
     normalize_description (facility_crlf 1)"
  using normalize_description_crlf [of "''failed.''"]
  by (simp add: Exception_description_def SystemException_POSIX_description facility_crlf_def
      std_string_def NUL_def CR_def LF_def)

text \<open>
  C5. The loop of \<open>what()\<close> appends, when no allocation fails, exactly the digits
  of the bytes of the code from the most significant to the least significant, each
  byte as the digit of its high nibble followed by the digit of its low nibble, taken
  from \<open>0123456789ABCDEF\<close>: twice as many digits as the code has bytes, whatever its
  value, 8 for a 32-bit code and 16 for a 64-bit code.
\<close>

theorem hex_loop_bytes:
  assumes "no_fail h"
  shows "fst (hex_loop p ec (sizeof_error_code ec) s h) = Inr () \<and>
         chars (fst (snd (hex_loop p ec (sizeof_error_code ec) s h))) =
           chars s @ render_hex (sizeof_error_code ec) (unat ec) \<and>
         length (render_hex (sizeof_error_code ec) (unat ec)) = 2 * sizeof_error_code ec \<and>
         set (render_hex (sizeof_error_code ec) (unat ec)) \<subseteq> set ''0123456789ABCDEF'' \<and>
         length (render_hex (sizeof_error_code (c32 :: 32 word)) (unat c32)) = 8 \<and>
         length (render_hex (sizeof_error_code (c64 :: 64 word)) (unat c64)) = 16"
proof -
  from hex_loop_ok [OF assms, of "sizeof_error_code ec" ec p s] obtain s' h' where
    "hex_loop p ec (sizeof_error_code ec) s h = (Inr (), s', h')"
    "chars s' = chars s @ render_hex (sizeof_error_code ec) (unat ec)"
    by auto
  then have run: "fst (hex_loop p ec (sizeof_error_code ec) s h) = Inr ()"
    "chars (fst (snd (hex_loop p ec (sizeof_error_code ec) s h))) =
       chars s @ render_hex (sizeof_error_code ec) (unat ec)"
    by simp_all
  have len: "length (render_hex (sizeof_error_code (c32 :: 32 word)) (unat c32)) = 8"
    "length (render_hex (sizeof_error_code (c64 :: 64 word)) (unat c64)) = 16"
    by (simp_all add: length_render_hex sizeof_error_code_def)
  from run len length_render_hex [of "sizeof_error_code ec" "unat ec"]
    set_render_hex [of "sizeof_error_code ec" "unat ec"]
  show ?thesis
    by blast
qed

theorem hex_loop_bytes_witness:
  "no_fail [] \<and>
   fst (hex_loop Windows (0x1234ABCD :: 32 word) (sizeof_error_code (0x1234ABCD :: 32 word))
          empty_string []) = Inr () \<and>
   chars (fst (snd (hex_loop Windows (0x1234ABCD :: 32 word)
          (sizeof_error_code (0x1234ABCD :: 32 word)) empty_string []))) = ''1234ABCD''"
  using hex_loop_bytes [of "[]" Windows "0x1234ABCD :: 32 word" empty_string]
  by (simp add: sizeof_error_code_def empty_string_def render_hex_sample)

text \<open>
  C6. When no allocation fails during a call of \<open>what()\<close>, the cache is non-empty
  afterwards, and any further call on the unchanged object returns the same text and
  leaves the object and the allocator as they were: it makes no allocation request,
  whatever the allocator would answer.
\<close>

theorem what_twice:
  assumes "no_fail h"
  shows "case what p cls e h of (t1, e1, h1) \<Rightarrow>
           \<not> empty_str (message_m e1) \<and> (\<forall>h2. what p cls e1 h2 = (t1, e1, h2))"
proof (cases "empty_str (message_m e)")
  case False
  then show ?thesis
    by (simp add: what_cached)
next
  case True
  from what_ok [OF assms True, of p cls] obtain m' h' where
    w: "what p cls e h = (std_string (c_str m'), e\<lparr>message_m := m'\<rparr>, h')"
    and m: "chars m' = render (std_string (category p cls e))
             (sizeof_error_code (error_code_m e)) (unat (error_code_m e))
             (context_m e) (description_m e)"
    by blast
  from m have "\<not> empty_str (message_m (e\<lparr>message_m := m'\<rparr>))"
    by (simp add: empty_str_def render_not_Nil)
  with w show ?thesis
    by (simp add: what_cached)
qed

theorem what_twice_witness:
  "no_fail [] \<and>
   (case what Windows SystemException (Exception_code (5 :: 32 word)) [] of
      (t1, e1, h1) \<Rightarrow>
        \<not> empty_str (message_m e1) \<and>
        (\<forall>h2. what Windows SystemException e1 h2 = (t1, e1, h2)))"
  using what_twice [of "[]" Windows SystemException "Exception_code (5 :: 32 word)"]
  by simp

text \<open>
  C7. An object constructed from \<open>ErrorInfo{c, d}\<close> and a context and an object
  constructed from the code, the context and the description have the same members, so
  \<open>what()\<close> gives the same result on both.
\<close>

theorem ErrorInfo_roundtrip:
  "what p cls (Exception_info_context \<lparr>error_code = c, description = d\<rparr> x) h =
   what p cls (Exception_code_context_description c x d) h"
  by (simp add: Exception_info_context_def Exception_code_context_description_def)

text \<open>
  C8. When \<open>FormatMessageA\<close> finds no text for the code (it returns length 0), the
  Windows constructor still builds the object: the description is empty, the code and
  the context are stored.
\<close>

theorem SystemException_no_text:
  assumes "FormatMessageA ec = []"
  shows "Exception_description (SystemException_WIN32 FormatMessageA ec ctx) = [] \<and>
         Exception_error_code (SystemException_WIN32 FormatMessageA ec ctx) = ec \<and>
         Exception_context (SystemException_WIN32 FormatMessageA ec ctx) = std_string ctx"
  using assms
  by (simp add: Exception_description_def Exception_error_code_def Exception_context_def
      SystemException_WIN32_description GetWin32ErrorDescription_def)
     (simp add: SystemException_WIN32_def Exception_code_context_description_def)

theorem SystemException_no_text_witness:
  "facility_none 1815 = [] \<and>
   Exception_description (SystemException_WIN32 facility_none 1815 ''load'') = [] \<and>
   Exception_error_code (SystemException_WIN32 facility_none 1815 ''load'') = 1815 \<and>
   Exception_context (SystemException_WIN32 facility_none 1815 ''load'') = ''load''"
  using SystemException_no_text [of facility_none 1815 "''load''"]
  by (simp add: facility_none_def std_string_def NUL_def)

text \<open>
  C9. Any number of calls of \<open>what()\<close>, whether assembly succeeds or throws, changes
  no member but \<open>message_m\<close>: \<open>error_code()\<close>, \<open>context()\<close>, \<open>description()\<close> and
  \<open>category()\<close> return what they returned before.
\<close>

theorem what_calls_preserve_fields:
  "case what_calls p cls n e h of
     (ts, e', h') \<Rightarrow>
        e' = e\<lparr>message_m := message_m e'\<rparr> \<and>
        Exception_error_code e' = Exception_error_code e \<and>
        Exception_context e' = Exception_context e \<and>
        Exception_description e' = Exception_description e \<and>
        category p cls e' = category p cls e"
proof -
  obtain ts e' h' where r: "what_calls p cls n e h = (ts, e', h')"
    by (cases "what_calls p cls n e h") auto
  from what_calls_frame [OF r] have f: "e' = e\<lparr>message_m := message_m e'\<rparr>" .
  have "error_code_m e' = error_code_m e" "context_m e' = context_m e"
    "description_m e' = description_m e"
    by (subst f, simp)+
  with r f show ?thesis
    by (simp add: Exception_error_code_def Exception_context_def Exception_description_def
        category_state_independent [of p cls e' e])
qed

text \<open>
  C10. On POSIX the code is a signed \<open>int\<close> and \<open>>>\<close> is the arithmetic shift. For a
  negative code (of a type whose width is a whole number of bytes) the hexadecimal
  segment is the rendering of the code's value modulo \<open>2 ^ (8 * sizeof)\<close>, that is of
  \<open>2 ^ (8 * sizeof)\<close> plus the value: the two's complement bit pattern. For the code
  \<open>-1\<close> it is \<open>2 * sizeof\<close> times the digit \<open>F\<close>.
\<close>

theorem posix_negative_code_hex:
  assumes "no_fail h" and "sint (ec :: 'a::len word) < 0" and "8 dvd LENGTH('a)"
  shows "sint ec mod 2 ^ (8 * sizeof_error_code ec) = 2 ^ (8 * sizeof_error_code ec) + sint ec \<and>
         fst (what Posix cls (Exception_code ec) h) =
           std_string (category Posix cls (Exception_code ec)) @ ''[0x'' @
           render_hex (sizeof_error_code ec)
             (nat (sint ec mod 2 ^ (8 * sizeof_error_code ec))) @ '']'' \<and>
         (sint ec = - 1 \<longrightarrow>
            fst (what Posix cls (Exception_code ec) h) =
              std_string (category Posix cls (Exception_code ec)) @ ''[0x'' @
              replicate (2 * sizeof_error_code ec) CHR ''F'' @ '']'')"
proof -
  from assms(3) have bits: "8 * sizeof_error_code ec = LENGTH('a)"
    by (simp add: sizeof_error_code_def)
  have 1: "sint ec mod 2 ^ (8 * sizeof_error_code ec) = 2 ^ (8 * sizeof_error_code ec) + sint ec"
    unfolding bits using assms(2) by (rule sint_negative_mod)
  have u: "unat ec = nat (sint ec mod 2 ^ (8 * sizeof_error_code ec))"
    unfolding bits by (rule unat_twos_complement)
  have 2: "fst (what Posix cls (Exception_code ec) h) =
           std_string (category Posix cls (Exception_code ec)) @ ''[0x'' @
           render_hex (sizeof_error_code ec)
             (nat (sint ec mod 2 ^ (8 * sizeof_error_code ec))) @ '']''"
    using what_code_only_text [OF assms(1), of Posix cls ec] by (simp only: u)
  have 3: "fst (what Posix cls (Exception_code ec) h) =
              std_string (category Posix cls (Exception_code ec)) @ ''[0x'' @
              replicate (2 * sizeof_error_code ec) CHR ''F'' @ '']''" if "sint ec = - 1"
  proof -
    from that have "sint ec = sint (- 1 :: 'a word)"
      by simp
    then have "ec = - 1"
      by (rule signed_word_eqI)
    with what_code_only_text [OF assms(1), of Posix cls ec]
      render_hex_minus_1 [of "sizeof_error_code (- 1 :: 'a word)", where 'a = 'a]
    show ?thesis
      by simp
  qed
  from 1 2 3 show ?thesis
    by blast
qed

theorem posix_negative_code_hex_witness:
  "no_fail [] \<and> sint (- 1 :: 32 word) < 0 \<and> 8 dvd LENGTH(32) \<and>
   fst (what Posix SystemException (Exception_code (- 1 :: 32 word)) []) =
     ''POSIX[0xFFFFFFFF]''"
proof -
  have prems: "no_fail []" "sint (- 1 :: 32 word) < 0" "8 dvd LENGTH(32)"
    by simp_all
  have minus: "sint (- 1 :: 32 word) = - 1"
    by simp
  have cat: "std_string (category Posix SystemException (Exception_code (- 1 :: 32 word))) =
      ''POSIX''"
    by (simp add: std_string_def NUL_def)
  from posix_negative_code_hex [OF prems, of SystemException] minus
  have "fst (what Posix SystemException (Exception_code (- 1 :: 32 word)) []) =
          std_string (category Posix SystemException (Exception_code (- 1 :: 32 word))) @
          ''[0x'' @ replicate (2 * sizeof_error_code (- 1 :: 32 word)) CHR ''F'' @ '']''"
    by blast
  then have "fst (what Posix SystemException (Exception_code (- 1 :: 32 word)) []) =
     ''POSIX[0xFFFFFFFF]''"
    by (simp only: cat replicate_F append.simps)
  with prems show ?thesis
    by blast
qed

end
